theory Spec2Isabelle
  imports Main "HOL-Library.AList" "HOL-Library.Sublist"
begin

section \<open>Paths (node:path, POSIX flavour)\<close>

text \<open>
  The script only ever hands absolute paths to the file system: every path it builds
  starts from \<open>__dirname\<close>, from \<open>process.cwd()\<close> or from the result of
  \<open>path.resolve\<close>.  An absolute path is kept as the list of its segments below the
  root; \<open>[]\<close> is the root itself.  Strings that come from outside (command line,
  manifest, link texts) are cut at the separator first.  A trailing separator is not
  represented: \<open>path.resolve\<close> and \<open>path.dirname\<close> drop it, \<open>path.join\<close> keeps the one
  of its last argument, so that \<open>path_join\<close> below gives the path that \<open>path.join\<close>
  gives up to a separator at the end.  In the script only a plugin identifier that
  ends with a separator produces one.
\<close>

type_synonym path = "string list"

text \<open>\<open>s.split(sep)\<close> for a separator of one character.\<close>

fun split_on :: "char \<Rightarrow> string \<Rightarrow> string list" where
  "split_on sep [] = [[]]"
| "split_on sep (c # cs) =
     (if c = sep then [] # split_on sep cs
      else (case split_on sep cs of [] \<Rightarrow> [[c]] | w # ws \<Rightarrow> (c # w) # ws))"

definition split_slash :: "string \<Rightarrow> string list" where
  "split_slash s = split_on (CHR ''/'') s"

definition is_absolute :: "string \<Rightarrow> bool" where
  "is_absolute s = (case s of [] \<Rightarrow> False | c # _ \<Rightarrow> c = CHR ''/'')"

text \<open>One step of \<open>path.normalize\<close> on an absolute path; the stack holds the segments
  seen so far, innermost first.  \<open>..\<close> at the root stays at the root.\<close>

definition norm_step :: "string list \<Rightarrow> string \<Rightarrow> string list" where
  "norm_step st s =
     (if s = [] \<or> s = ''.'' then st
      else if s = ''..'' then (case st of [] \<Rightarrow> [] | _ # st' \<Rightarrow> st')
      else s # st)"

definition normalize :: "string list \<Rightarrow> path" where
  "normalize segs = rev (foldl norm_step [] segs)"

text \<open>\<open>path.join(p, ...args)\<close> for an absolute first argument.\<close>

definition path_join :: "path \<Rightarrow> string list \<Rightarrow> path" where
  "path_join p args = normalize (p @ concat (map split_slash args))"

text \<open>\<open>path.resolve(base, s)\<close> for an absolute \<open>base\<close>, and \<open>path.resolve(p)\<close> for a
  path that is absolute already.\<close>

definition path_resolve2 :: "path \<Rightarrow> string \<Rightarrow> path" where
  "path_resolve2 base s =
     (if is_absolute s then normalize (split_slash s) else normalize (base @ split_slash s))"

definition path_resolve :: "path \<Rightarrow> path" where
  "path_resolve p = normalize p"

definition path_dirname :: "path \<Rightarrow> path" where
  "path_dirname p = butlast p"

text \<open>The string form of an absolute path, as \<open>fs.symlinkSync\<close> stores it.\<close>

definition render :: "path \<Rightarrow> string" where
  "render p = (if p = [] then ''/'' else concat (map (\<lambda>s. CHR ''/'' # s) p))"

text \<open>A segment that names one directory entry.\<close>

definition plain :: "string \<Rightarrow> bool" where
  "plain s = (s \<noteq> [] \<and> s \<noteq> ''.'' \<and> s \<noteq> ''..'' \<and> CHR ''/'' \<notin> set s)"

section \<open>The file system\<close>

text \<open>
  A tree of directories, regular files (with their content) and symbolic links (with
  their text).  A directory lists its entries in the order \<open>readdir\<close> reports them.
\<close>

datatype node = File string | Dir "(string \<times> node) list" | Link string

datatype errno = ENOENT | ENOTDIR | EEXIST | EISDIR | ELOOP | EINVAL | EBUSY

text \<open>The object at a path, walking through real directories only (no link is followed).\<close>

primrec get :: "node \<Rightarrow> path \<Rightarrow> node option" where
  "get n [] = Some n"
| "get n (s # ss) =
     (case n of
        Dir es \<Rightarrow> (case map_of es s of None \<Rightarrow> None | Some c \<Rightarrow> get c ss)
      | _ \<Rightarrow> None)"

text \<open>Store an object at a path whose parent is a real directory (replacing what is there,
  or appending a new entry); elsewhere the tree is left alone.\<close>

primrec put :: "node \<Rightarrow> path \<Rightarrow> node \<Rightarrow> node" where
  "put n [] x = x"
| "put n (s # ss) x =
     (case n of
        Dir es \<Rightarrow>
          (if ss = [] then Dir (AList.update s x es)
           else (case map_of es s of
                   None \<Rightarrow> n
                 | Some c \<Rightarrow> Dir (AList.update s (put c ss x) es)))
      | _ \<Rightarrow> n)"

text \<open>Remove the entry at a path together with everything below it.\<close>

primrec del :: "node \<Rightarrow> path \<Rightarrow> node" where
  "del n [] = n"
| "del n (s # ss) =
     (case n of
        Dir es \<Rightarrow>
          (if ss = [] then Dir (AList.delete s es)
           else (case map_of es s of
                   None \<Rightarrow> n
                 | Some c \<Rightarrow> Dir (AList.update s (del c ss) es)))
      | _ \<Rightarrow> n)"

text \<open>The kernel gives up after this many symbolic links in one lookup.\<close>

definition maxlinks :: nat where
  "maxlinks = 40"

text \<open>
  Path lookup as the kernel does it: \<open>cur\<close> is the directory reached so far (a path of
  real directories), \<open>rest\<close> the segments still to walk.  Every symbolic link met on the
  way, the last segment included, is followed; \<open>k\<close> counts the links that may still be
  followed.  With \<open>creat\<close> a missing last segment is accepted and named (where
  \<open>open(O_CREAT)\<close> would create the file).
\<close>

fun walk :: "nat \<Rightarrow> node \<Rightarrow> bool \<Rightarrow> path \<Rightarrow> string list \<Rightarrow> errno + path" where
  "walk k r creat cur [] = Inr cur"
| "walk k r creat cur (s # ss) =
     (case get r cur of
        None \<Rightarrow> Inl ENOENT
      | Some (Dir es) \<Rightarrow>
          (if s = [] \<or> s = ''.'' then walk k r creat cur ss
           else if s = ''..'' then walk k r creat (butlast cur) ss
           else (case map_of es s of
                   None \<Rightarrow> (if creat \<and> ss = [] then Inr (cur @ [s]) else Inl ENOENT)
                 | Some (Link t) \<Rightarrow>
                     (case k of
                        0 \<Rightarrow> Inl ELOOP
                      | Suc k' \<Rightarrow>
                          (if t = [] then Inl ENOENT
                           else walk k' r creat (if is_absolute t then [] else cur)
                                  (split_slash t @ ss)))
                 | Some _ \<Rightarrow> walk k r creat (cur @ [s]) ss))
      | Some _ \<Rightarrow> Inl ENOTDIR)"

text \<open>The directory that holds the last segment of \<open>p\<close>; the last segment itself is not
  looked at.\<close>

definition lparent :: "node \<Rightarrow> path \<Rightarrow> errno + path" where
  "lparent r p =
     (case walk maxlinks r False [] (butlast p) of
        Inl e \<Rightarrow> Inl e
      | Inr d \<Rightarrow>
          (case get r d of
             None \<Rightarrow> Inl ENOENT
           | Some (Dir _) \<Rightarrow> Inr d
           | Some _ \<Rightarrow> Inl ENOTDIR))"

definition lstatSync :: "node \<Rightarrow> path \<Rightarrow> errno + node" where
  "lstatSync r p =
     (if p = [] then Inr r
      else (case lparent r p of
              Inl e \<Rightarrow> Inl e
            | Inr d \<Rightarrow> (case get r (d @ [last p]) of None \<Rightarrow> Inl ENOENT | Some n \<Rightarrow> Inr n)))"

definition statSync :: "node \<Rightarrow> path \<Rightarrow> errno + node" where
  "statSync r p =
     (case walk maxlinks r False [] p of
        Inl e \<Rightarrow> Inl e
      | Inr q \<Rightarrow> (case get r q of None \<Rightarrow> Inl ENOENT | Some n \<Rightarrow> Inr n))"

text \<open>\<open>fs.existsSync\<close> never throws: whatever goes wrong, the answer is \<open>false\<close>.\<close>

definition existsSync :: "node \<Rightarrow> path \<Rightarrow> bool" where
  "existsSync r p = (case statSync r p of Inl _ \<Rightarrow> False | Inr _ \<Rightarrow> True)"

definition readlinkSync :: "node \<Rightarrow> path \<Rightarrow> errno + string" where
  "readlinkSync r p =
     (case lstatSync r p of
        Inl e \<Rightarrow> Inl e
      | Inr (Link t) \<Rightarrow> Inr t
      | Inr _ \<Rightarrow> Inl EINVAL)"

definition mkdir1 :: "node \<Rightarrow> path \<Rightarrow> errno + node" where
  "mkdir1 r p =
     (if p = [] then Inl EEXIST
      else (case lparent r p of
              Inl e \<Rightarrow> Inl e
            | Inr d \<Rightarrow>
                (case get r (d @ [last p]) of
                   Some _ \<Rightarrow> Inl EEXIST
                 | None \<Rightarrow> Inr (put r (d @ [last p]) (Dir [])))))"

text \<open>\<open>fs.mkdirSync(p, {recursive: true})\<close>: every prefix of \<open>p\<close> that is missing is
  created; one that is a directory already is kept.  Where \<open>mkdir\<close> finds the name taken,
  the error reported is the one of the \<open>stat\<close> made to see what is there: \<open>ENOENT\<close> for a
  link that leads nowhere.\<close>

fun mkdir_from :: "node \<Rightarrow> path \<Rightarrow> string list \<Rightarrow> errno + node" where
  "mkdir_from r pre [] = Inr r"
| "mkdir_from r pre (s # ss) =
     (case statSync r (pre @ [s]) of
        Inr (Dir _) \<Rightarrow> mkdir_from r (pre @ [s]) ss
      | Inr _ \<Rightarrow> Inl (if ss = [] then EEXIST else ENOTDIR)
      | Inl ENOENT \<Rightarrow>
          (case mkdir1 r (pre @ [s]) of
             Inl e \<Rightarrow> Inl (if e = EEXIST then ENOENT else e)
           | Inr r' \<Rightarrow> mkdir_from r' (pre @ [s]) ss)
      | Inl e \<Rightarrow> Inl e)"

definition mkdirSync :: "node \<Rightarrow> path \<Rightarrow> errno + node" where
  "mkdirSync r p = mkdir_from r [] p"

text \<open>\<open>fs.rmSync(p, {recursive: true, force: true})\<close>: the entry itself goes (a link is
  not followed); a path that does not exist is not an error.\<close>

definition rmSync :: "node \<Rightarrow> path \<Rightarrow> errno + node" where
  "rmSync r p =
     (if p = [] then Inl EBUSY
      else (case lparent r p of
              Inl ENOENT \<Rightarrow> Inr r
            | Inl e \<Rightarrow> Inl e
            | Inr d \<Rightarrow> Inr (del r (d @ [last p]))))"

definition symlinkSync :: "node \<Rightarrow> string \<Rightarrow> path \<Rightarrow> errno + node" where
  "symlinkSync r t p =
     (if p = [] then Inl EEXIST
      else (case lparent r p of
              Inl e \<Rightarrow> Inl e
            | Inr d \<Rightarrow>
                (case get r (d @ [last p]) of
                   Some _ \<Rightarrow> Inl EEXIST
                 | None \<Rightarrow> Inr (put r (d @ [last p]) (Link t)))))"

text \<open>Open for writing with creation and truncation, then write: links are followed, a
  missing file is created where the lookup ends.\<close>

definition writeFileSync :: "node \<Rightarrow> path \<Rightarrow> string \<Rightarrow> errno + node" where
  "writeFileSync r p c =
     (case walk maxlinks r True [] p of
        Inl e \<Rightarrow> Inl e
      | Inr q \<Rightarrow>
          (case get r q of
             Some (Dir _) \<Rightarrow> Inl EISDIR
           | Some (Link _) \<Rightarrow> Inl ELOOP
           | _ \<Rightarrow> Inr (put r q (File c))))"

definition readFileSync :: "node \<Rightarrow> path \<Rightarrow> errno + string" where
  "readFileSync r p =
     (case statSync r p of
        Inl e \<Rightarrow> Inl e
      | Inr (File c) \<Rightarrow> Inr c
      | Inr (Dir _) \<Rightarrow> Inl EISDIR
      | Inr (Link _) \<Rightarrow> Inl ELOOP)"

text \<open>\<open>unlink(p)\<close> with its result ignored: the entry goes unless it is a directory.\<close>

definition unlink :: "node \<Rightarrow> path \<Rightarrow> node" where
  "unlink r p =
     (if p = [] then r
      else (case lparent r p of
              Inl _ \<Rightarrow> r
            | Inr d \<Rightarrow>
                (case get r (d @ [last p]) of
                   Some (Dir _) \<Rightarrow> r
                 | _ \<Rightarrow> del r (d @ [last p]))))"

text \<open>
  \<open>fs.copyFileSync(src, dst)\<close>: the source is opened for reading (a directory can be
  opened), then the destination for writing, with creation; the destination is
  truncated and the content copied.  Reading from a directory fails; the copy that
  has failed after the destination was opened removes the destination again, by its
  name.  The result is the outcome together with the state left.
\<close>

definition copyFileSync :: "node \<Rightarrow> path \<Rightarrow> path \<Rightarrow> (errno + unit) \<times> node" where
  "copyFileSync r src dst =
     (case statSync r src of
        Inl e \<Rightarrow> (Inl e, r)
      | Inr (Link _) \<Rightarrow> (Inl ELOOP, r)
      | Inr n \<Rightarrow>
          (case walk maxlinks r True [] dst of
             Inl e \<Rightarrow> (Inl e, r)
           | Inr q \<Rightarrow>
               (case get r q of
                  Some (Dir _) \<Rightarrow> (Inl EISDIR, r)
                | Some (Link _) \<Rightarrow> (Inl ELOOP, r)
                | _ \<Rightarrow>
                    (case n of
                       File c \<Rightarrow> (Inr (), put r q (File c))
                     | _ \<Rightarrow> (Inl EISDIR, unlink (put r q (File [])) dst)))))"

text \<open>\<open>fs.readdirSync(p, {withFileTypes: true})\<close>: the entries with their own kind (an
  entry that is a link reports as a link, whatever it points to).\<close>

definition readdirSync :: "node \<Rightarrow> path \<Rightarrow> errno + (string \<times> node) list" where
  "readdirSync r p =
     (case statSync r p of
        Inl e \<Rightarrow> Inl e
      | Inr (Dir es) \<Rightarrow> Inr es
      | Inr _ \<Rightarrow> Inl ENOTDIR)"

definition isDirectory :: "node \<Rightarrow> bool" where
  "isDirectory n = (case n of Dir _ \<Rightarrow> True | _ \<Rightarrow> False)"

definition isSymbolicLink :: "node \<Rightarrow> bool" where
  "isSymbolicLink n = (case n of Link _ \<Rightarrow> True | _ \<Rightarrow> False)"

section \<open>The deployment script\<close>

subsection \<open>Process state, outcomes, log lines\<close>

datatype cause = Sys errno | BadJson | NoId

datatype msg =
    DeployModeIs string | TargetVault path | PluginIdIs string
  | EnvFileMissing | VaultPathUnset | ManifestMissing | ManifestUnreadable cause
  | SkipLinkSelf | LinkExists string | BackedUp | LinkCreated string | LinkFailed cause
  | SkipCopySelf | DistMissing | Copied nat string | CopyFailed cause
  | UnknownMode string | SupportedModes | DeployFailed cause

text \<open>How a piece of the script can end other than by returning: \<open>process.exit(c)\<close>,
  a thrown error, or a recursion that was cut off by its fuel.\<close>

datatype abort = Exit nat | Throw cause | OutOfFuel

record world =
  fs :: node
  out :: "msg list"

type_synonym 'a io = "world \<Rightarrow> (abort + 'a) \<times> world"

definition say :: "msg \<Rightarrow> world \<Rightarrow> world" where
  "say m w = w\<lparr>out := out w @ [m]\<rparr>"

definition exit :: "nat \<Rightarrow> 'a io" where
  "exit c w = (Inl (Exit c), w)"

definition throw :: "cause \<Rightarrow> 'a io" where
  "throw x w = (Inl (Throw x), w)"

definition attempt :: "(node \<Rightarrow> errno + node) \<Rightarrow> unit io" where
  "attempt f w =
     (case f (fs w) of
        Inl e \<Rightarrow> (Inl (Throw (Sys e)), w)
      | Inr r \<Rightarrow> (Inr (), w\<lparr>fs := r\<rparr>))"

text \<open>\<open>attempt\<close> runs a file-system call that throws when it fails;
  \<open>attempt_leaving\<close> is for a call that leaves a changed state behind when it fails.\<close>

definition attempt_leaving :: "(node \<Rightarrow> (errno + unit) \<times> node) \<Rightarrow> unit io" where
  "attempt_leaving f w =
     (case f (fs w) of
        (Inl e, r) \<Rightarrow> (Inl (Throw (Sys e)), w\<lparr>fs := r\<rparr>)
      | (Inr _, r) \<Rightarrow> (Inr (), w\<lparr>fs := r\<rparr>))"

definition and_then :: "'a io \<Rightarrow> ('a \<Rightarrow> 'b io) \<Rightarrow> 'b io" where
  "and_then m f w = (case m w of (Inl a, w') \<Rightarrow> (Inl a, w') | (Inr x, w') \<Rightarrow> f x w')"

text \<open>\<open>try { m } catch (error) { h(error) }\<close>: only a thrown error is caught.\<close>

definition try_catch :: "'a io \<Rightarrow> (cause \<Rightarrow> 'a io) \<Rightarrow> 'a io" where
  "try_catch m h w = (case m w of (Inl (Throw x), w') \<Rightarrow> h x w' | res \<Rightarrow> res)"

subsection \<open>What the script is started with\<close>

text \<open>
  \<open>script_dir\<close> is \<open>__dirname\<close>, \<open>cwd\<close> is \<open>process.cwd()\<close>, \<open>argv\<close> is
  \<open>process.argv.slice(2)\<close>.  \<open>dotenv_vault\<close> stands for \<open>dotenv.config\<close> followed by
  reading \<open>process.env.VAULT_PATH\<close>: it maps the content of the \<open>.env\<close> file (\<open>None\<close>
  when it cannot be read) to that variable.  \<open>json_id\<close> stands for \<open>JSON.parse\<close>
  followed by reading the field \<open>id\<close>: \<open>None\<close> when parsing throws, the empty string
  when the field is missing or empty.
\<close>

record env =
  script_dir :: string
  cwd :: string
  argv :: "string list"
  dotenv_vault :: "string option \<Rightarrow> string option"
  json_id :: "string \<Rightarrow> string option"

definition projectRoot :: "env \<Rightarrow> path" where
  "projectRoot e = path_resolve2 (normalize (split_slash (script_dir e))) ''..''"

definition distDir :: "env \<Rightarrow> path" where
  "distDir e = path_join (projectRoot e) [''dist'']"

definition manifestPath :: "env \<Rightarrow> path" where
  "manifestPath e = path_join (projectRoot e) [''manifest.json'']"

definition envPath :: "env \<Rightarrow> path" where
  "envPath e = path_join (projectRoot e) [''.env'']"

definition deployMode :: "env \<Rightarrow> string" where
  "deployMode e = (case argv e of [] \<Rightarrow> ''link'' | a # _ \<Rightarrow> if a = [] then ''link'' else a)"

text \<open>\<open>args.find(arg => arg.startsWith("--vault-path="))?.split("=")[1]\<close>\<close>

definition customVaultPath :: "env \<Rightarrow> string option" where
  "customVaultPath e =
     (case List.find (\<lambda>arg. prefix ''--vault-path='' arg) (argv e) of
        None \<Rightarrow> None
      | Some arg \<Rightarrow> Some (split_on (CHR ''='') arg ! 1))"

subsection \<open>Helper functions of the script\<close>

definition loadVaultPath :: "env \<Rightarrow> path io" where
  "loadVaultPath e w =
     (case customVaultPath e of
        Some (c # cs) \<Rightarrow> (Inr (path_resolve2 (normalize (split_slash (cwd e))) (c # cs)), w)
      | _ \<Rightarrow>
          (if \<not> existsSync (fs w) (envPath e) then exit 0 (say EnvFileMissing w)
           else (case dotenv_vault e
                        (case readFileSync (fs w) (envPath e) of Inl _ \<Rightarrow> None | Inr c \<Rightarrow> Some c) of
                   Some (c # cs) \<Rightarrow>
                     (Inr (path_resolve2 (normalize (split_slash (cwd e))) (c # cs)), w)
                 | _ \<Rightarrow> exit 1 (say VaultPathUnset w))))"

definition readJsonSync :: "env \<Rightarrow> path \<Rightarrow> string io" where
  "readJsonSync e p w =
     (case readFileSync (fs w) p of
        Inl er \<Rightarrow> throw (Sys er) w
      | Inr c \<Rightarrow> (case json_id e c of None \<Rightarrow> throw BadJson w | Some i \<Rightarrow> (Inr i, w)))"

definition getPluginId :: "env \<Rightarrow> string io" where
  "getPluginId e w =
     (let distManifestPath = path_join (distDir e) [''manifest.json''];
          manifestFile =
            (if existsSync (fs w) distManifestPath then distManifestPath else manifestPath e)
      in if \<not> existsSync (fs w) manifestFile then exit 1 (say ManifestMissing w)
         else try_catch
                (and_then (readJsonSync e manifestFile)
                   (\<lambda>i. if i = [] then throw NoId else (\<lambda>w'. (Inr i, w'))))
                (\<lambda>x w'. exit 1 (say (ManifestUnreadable x) w')) w)"

definition ensureDistReady :: "env \<Rightarrow> unit io" where
  "ensureDistReady e =
     and_then
       (\<lambda>w. if \<not> existsSync (fs w) (distDir e)
            then attempt (\<lambda>r. mkdirSync r (distDir e)) w else (Inr (), w))
       (\<lambda>_ w. let hotreloadPath = path_join (distDir e) [''.hotreload'']
              in if \<not> existsSync (fs w) hotreloadPath
                 then attempt (\<lambda>r. writeFileSync r hotreloadPath []) w else (Inr (), w))"

text \<open>
  \<open>copyDirRecursive\<close> recurses on what it finds on disk while it writes to the disk, so
  nothing bounds its depth beforehand: the first argument bounds it here, and the run
  ends in \<open>OutOfFuel\<close> when the bound is reached.  \<open>copyEntries\<close> is the \<open>for\<close> loop
  over the entries read.
\<close>

fun copyDirRecursive :: "nat \<Rightarrow> node \<Rightarrow> path \<Rightarrow> path \<Rightarrow> (abort + unit) \<times> node"
  and copyEntries ::
    "nat \<Rightarrow> node \<Rightarrow> path \<Rightarrow> path \<Rightarrow> (string \<times> node) list \<Rightarrow> (abort + unit) \<times> node" where
  "copyDirRecursive 0 r src dest = (Inl OutOfFuel, r)"
| "copyDirRecursive (Suc k) r src dest =
     (case mkdirSync r dest of
        Inl er \<Rightarrow> (Inl (Throw (Sys er)), r)
      | Inr r1 \<Rightarrow>
          (case readdirSync r1 src of
             Inl er \<Rightarrow> (Inl (Throw (Sys er)), r1)
           | Inr entries \<Rightarrow> copyEntries k r1 src dest entries))"
| "copyEntries k r src dest [] = (Inr (), r)"
| "copyEntries k r src dest (entry # entries) =
     (let srcPath = path_join src [fst entry];
          destPath = path_join dest [fst entry];
          step = (if isDirectory (snd entry) then copyDirRecursive k r srcPath destPath
                  else (case copyFileSync r srcPath destPath of
                          (Inl er, r') \<Rightarrow> (Inl (Throw (Sys er)), r')
                        | (Inr _, r') \<Rightarrow> (Inr (), r')))
      in case fst step of
           Inl a \<Rightarrow> (Inl a, snd step)
         | Inr _ \<Rightarrow> copyEntries k (snd step) src dest entries)"

subsection \<open>Link mode\<close>

text \<open>Where the plugin goes inside the vault; both modes compute it the same way.\<close>

definition targetPluginDir :: "path \<Rightarrow> string \<Rightarrow> path" where
  "targetPluginDir vaultPath pluginId = path_join vaultPath [''.obsidian'', ''plugins'', pluginId]"

text \<open>The end of \<open>deployLink\<close>: make sure the parent directory exists, then create the
  link; a failure of the latter is reported and ends the run.\<close>

definition createLink :: "env \<Rightarrow> path \<Rightarrow> string \<Rightarrow> unit io" where
  "createLink e target pluginId =
     and_then (attempt (\<lambda>r. mkdirSync r (path_dirname target)))
       (\<lambda>_. try_catch
               (and_then (attempt (\<lambda>r. symlinkSync r (render (distDir e)) target))
                  (\<lambda>_ w. (Inr (), say (LinkCreated pluginId) w)))
               (\<lambda>x w. exit 1 (say (LinkFailed x) w)))"

text \<open>Removal of what is at the target, followed by the end of \<open>deployLink\<close>.\<close>

definition removeOld :: "env \<Rightarrow> path \<Rightarrow> string \<Rightarrow> unit io" where
  "removeOld e target pluginId =
     and_then (attempt (\<lambda>r. rmSync r target))
       (\<lambda>_. createLink e target pluginId)"

definition deployLink :: "env \<Rightarrow> path \<Rightarrow> string \<Rightarrow> unit io" where
  "deployLink e vaultPath pluginId w =
     (let target = targetPluginDir vaultPath pluginId
      in if path_resolve target = path_resolve (distDir e)
         then exit 0 (say SkipLinkSelf w)
         else if existsSync (fs w) target then
           (case lstatSync (fs w) target of
              Inl er \<Rightarrow> throw (Sys er) w
            | Inr stats \<Rightarrow>
                (if isSymbolicLink stats then
                   (case readlinkSync (fs w) target of
                      Inl er \<Rightarrow> throw (Sys er) w
                    | Inr linkTarget \<Rightarrow>
                        (if path_resolve2 (path_dirname target) linkTarget
                              = path_resolve (distDir e)
                         then (Inr (), say (LinkExists pluginId) w)
                         else removeOld e target pluginId w))
                 else if isDirectory stats then
                   (let dataJsonPath = path_join target [''data.json'']
                    in if existsSync (fs w) dataJsonPath then
                         and_then
                           (attempt_leaving (\<lambda>r. copyFileSync r dataJsonPath
                                            (path_join (distDir e) [''data.json''])))
                           (\<lambda>_ w'. removeOld e target pluginId (say BackedUp w')) w
                       else removeOld e target pluginId w)
                 else removeOld e target pluginId w))
         else createLink e target pluginId w)"

subsection \<open>Copy mode\<close>

definition deployCopy :: "nat \<Rightarrow> env \<Rightarrow> path \<Rightarrow> string \<Rightarrow> unit io" where
  "deployCopy fuel e vaultPath pluginId w =
     (let target = targetPluginDir vaultPath pluginId
      in if path_resolve target = path_resolve (distDir e)
         then exit 0 (say SkipCopySelf w)
         else if \<not> existsSync (fs w) (distDir e) then exit 1 (say DistMissing w)
         else
           and_then
             (\<lambda>w. if existsSync (fs w) target
                  then attempt (\<lambda>r. rmSync r target) w else (Inr (), w))
             (\<lambda>_. try_catch
                     (and_then
                        (\<lambda>w. case copyDirRecursive fuel (fs w) (distDir e) target of
                               (res, r) \<Rightarrow> (res, w\<lparr>fs := r\<rparr>))
                        (\<lambda>_ w. case readdirSync (fs w) (distDir e) of
                                 Inl er \<Rightarrow> throw (Sys er) w
                               | Inr entries \<Rightarrow>
                                   (Inr (), say (Copied (length entries) pluginId) w)))
                     (\<lambda>x w. exit 1 (say (CopyFailed x) w))) w)"

subsection \<open>The run\<close>

definition main :: "nat \<Rightarrow> env \<Rightarrow> unit io" where
  "main fuel e =
     try_catch
       (\<lambda>w. and_then (ensureDistReady e)
              (\<lambda>_. and_then (loadVaultPath e)
                (\<lambda>vaultPath. and_then (getPluginId e)
                  (\<lambda>pluginId w.
                     let w' = say (PluginIdIs pluginId) (say (TargetVault vaultPath) w)
                     in if deployMode e = ''link'' then deployLink e vaultPath pluginId w'
                        else if deployMode e = ''copy''
                        then deployCopy fuel e vaultPath pluginId w'
                        else exit 1 (say SupportedModes (say (UnknownMode (deployMode e)) w')))))
              (say (DeployModeIs (deployMode e)) w))
       (\<lambda>x w. exit 1 (say (DeployFailed x) w))"

text \<open>The exit status of the process: \<open>0\<close> when \<open>main\<close> returns, the argument of
  \<open>process.exit\<close> otherwise; none when the run was cut off.\<close>

definition exit_status :: "(abort + unit) \<times> world \<Rightarrow> nat option" where
  "exit_status res =
     (case fst res of
        Inr _ \<Rightarrow> Some 0
      | Inl (Exit c) \<Rightarrow> Some c
      | Inl (Throw _) \<Rightarrow> Some 1
      | Inl OutOfFuel \<Rightarrow> None)"

section \<open>Notions used in the analysis\<close>

text \<open>A path without empty, \<open>.\<close> or \<open>..\<close> segments: what \<open>path.normalize\<close> returns.\<close>

definition clean :: "path \<Rightarrow> bool" where
  "clean p = list_all (\<lambda>s. s \<noteq> [] \<and> s \<noteq> ''.'' \<and> s \<noteq> ''..'') p"


text \<open>One tree extends another: what was there is still there, with the same kind, the
  same link text and the same file content; directories may have gained entries.\<close>

definition ext :: "node \<Rightarrow> node \<Rightarrow> bool" where
  "ext r r' = (\<forall>q. case get r q of
                     None \<Rightarrow> True
                   | Some (File c) \<Rightarrow> get r' q = Some (File c)
                   | Some (Link t) \<Rightarrow> get r' q = Some (Link t)
                   | Some (Dir es) \<Rightarrow> (\<exists>es'. get r' q = Some (Dir es')))"



text \<open>The number of directory levels of a tree.\<close>

fun height :: "node \<Rightarrow> nat" where
  "height (Dir es) = Suc (fold max (map (\<lambda>p. height (snd p)) es) 0)"
| "height _ = 0"




section \<open>Sample configurations\<close>

text \<open>
  A project at \<open>/p\<close> with the script in \<open>/p/scripts\<close>, started in \<open>/p\<close> with the
  given arguments; no \<open>VAULT_PATH\<close> comes from the environment, and the manifest
  decoder takes the whole content of the manifest as the identifier.
\<close>

definition sample_env :: "string list \<Rightarrow> env" where
  "sample_env args =
     \<lparr>script_dir = ''/p/scripts'', cwd = ''/p'', argv = args,
      dotenv_vault = (\<lambda>_. None), json_id = (\<lambda>c. Some c)\<rparr>"

definition start :: "node \<Rightarrow> world" where
  "start r = \<lparr>fs = r, out = []\<rparr>"

text \<open>The project before any build (no \<open>dist\<close>), next to an empty vault \<open>/v\<close>.\<close>

definition fs_unbuilt :: node where
  "fs_unbuilt =
     Dir [(''p'', Dir [(''scripts'', Dir [(''deploy.mjs'', File ''...'')]),
                       (''manifest.json'', File ''id'')]),
          (''v'', Dir [])]"

text \<open>The project after a build, with a vault that has its plugin directory.\<close>

definition fs_built :: node where
  "fs_built =
     Dir [(''p'', Dir [(''scripts'', Dir [(''deploy.mjs'', File ''...'')]),
                       (''manifest.json'', File ''id''),
                       (''dist'', Dir [(''.hotreload'', File []), (''main.js'', File ''code'')])]),
          (''v'', Dir [(''.obsidian'', Dir [(''plugins'', Dir [])])])]"

text \<open>The same, with a link at the target that points to itself.\<close>

definition fs_loop :: node where
  "fs_loop =
     Dir [(''p'', Dir [(''scripts'', Dir [(''deploy.mjs'', File ''...'')]),
                       (''manifest.json'', File ''id''),
                       (''dist'', Dir [(''.hotreload'', File []), (''main.js'', File ''code'')])]),
          (''v'', Dir [(''.obsidian'', Dir [(''plugins'', Dir [(''id'', Link ''id'')])])])]"

text \<open>The same, with a link at the target that points to a directory that is gone, and
  with one that points to a directory that exists.\<close>

definition fs_stale :: node where
  "fs_stale =
     Dir [(''p'', Dir [(''scripts'', Dir [(''deploy.mjs'', File ''...'')]),
                       (''manifest.json'', File ''id''),
                       (''dist'', Dir [(''.hotreload'', File []), (''main.js'', File ''code'')])]),
          (''v'', Dir [(''.obsidian'', Dir [(''plugins'', Dir [(''id'', Link ''/p/gone'')])])])]"

definition fs_elsewhere :: node where
  "fs_elsewhere =
     Dir [(''p'', Dir [(''scripts'', Dir [(''deploy.mjs'', File ''...'')]),
                       (''manifest.json'', File ''id''),
                       (''dist'', Dir [(''.hotreload'', File []), (''main.js'', File ''code'')]),
                       (''old'', Dir [(''main.js'', File ''old'')])]),
          (''v'', Dir [(''.obsidian'', Dir [(''plugins'', Dir [(''id'', Link ''/p/old'')])])])]"

text \<open>A project that sits in the plugin directory of the vault \<open>/v\<close> and whose plugin
  is called \<open>dist\<close>: its target is its own \<open>dist\<close> directory.  Not built yet.\<close>

definition fs_inside :: node where
  "fs_inside =
     Dir [(''v'', Dir [(''.obsidian'', Dir [(''plugins'',
            Dir [(''scripts'', Dir [(''deploy.mjs'', File ''...'')]),
                 (''manifest.json'', File ''dist'')])])])]"

definition env_inside :: "string list \<Rightarrow> env" where
  "env_inside args = (sample_env args)\<lparr>script_dir := ''/v/.obsidian/plugins/scripts''\<rparr>"

text \<open>A project cloned into its own place in the vault: the project root is the target
  directory of its plugin \<open>id\<close>.  Built, and with settings saved by the application.\<close>

definition fs_nested :: node where
  "fs_nested =
     Dir [(''v'', Dir [(''.obsidian'', Dir [(''plugins'', Dir [(''id'',
            Dir [(''scripts'', Dir [(''deploy.mjs'', File ''...'')]),
                 (''manifest.json'', File ''id''),
                 (''data.json'', File ''settings''),
                 (''dist'', Dir [(''.hotreload'', File []), (''main.js'', File ''code'')])])])])])]"

definition env_nested :: "string list \<Rightarrow> env" where
  "env_nested args = (sample_env args)\<lparr>script_dir := ''/v/.obsidian/plugins/id/scripts''\<rparr>"




section \<open>Properties of the path functions\<close>

lemma split_on_no_sep: "sep \<notin> set s \<Longrightarrow> split_on sep s = [s]"
  by (induction s) auto

lemma split_slash_plain: "plain s \<Longrightarrow> split_slash s = [s]"
  by (simp add: plain_def split_slash_def split_on_no_sep)

lemma norm_step_plain: "plain s \<Longrightarrow> norm_step st s = s # st"
  by (simp add: plain_def norm_step_def)

lemma normalize_snoc_plain: "plain s \<Longrightarrow> normalize (xs @ [s]) = normalize xs @ [s]"
  by (simp add: normalize_def norm_step_plain)

lemma plain_obsidian: "plain ''.obsidian''" "plain ''plugins''"
  by (simp_all add: plain_def)

lemma path_join_one_plain: "plain s \<Longrightarrow> path_join base [s] = normalize base @ [s]"
  by (simp add: path_join_def split_slash_plain normalize_snoc_plain)

lemma targetPluginDir_plain:
  assumes p: "plain pluginId"
  shows "targetPluginDir base pluginId = normalize base @ [''.obsidian'', ''plugins'', pluginId]"
proof -
  have "targetPluginDir base pluginId
        = normalize (((base @ [''.obsidian'']) @ [''plugins'']) @ [pluginId])"
    by (simp add: targetPluginDir_def path_join_def split_slash_plain[OF p]
        split_slash_plain[OF plain_obsidian(1)] split_slash_plain[OF plain_obsidian(2)])
  also have "\<dots> = normalize base @ [''.obsidian'', ''plugins'', pluginId]"
    by (simp only: normalize_snoc_plain[OF p] normalize_snoc_plain[OF plain_obsidian(1)]
        normalize_snoc_plain[OF plain_obsidian(2)]) simp
  finally show ?thesis .
qed

text \<open>
  C9, as stated (every base path and every plugin identifier): the parent of the parent
  of the target is the base joined with \<open>.obsidian\<close>.  It fails for the identifier
  \<open>..\<close>, which \<open>path.join\<close> resolves away: the target of \<open>/v\<close> is then
  \<open>/v/.obsidian\<close>, whose parent's parent is the root.
\<close>

theorem target_layout_counterexample:
  "path_dirname (path_dirname (targetPluginDir [''v''] ''..'')) \<noteq> path_join [''v''] [''.obsidian'']"
  by (simp add: targetPluginDir_def path_join_def normalize_def norm_step_def split_slash_def
      path_dirname_def)

text \<open>
  C9, amended: for every base path and every plugin identifier that is one ordinary path
  segment (not empty, no separator, neither \<open>.\<close> nor \<open>..\<close>), the target is the
  normalized base followed by \<open>.obsidian\<close>, \<open>plugins\<close> and the identifier, and the
  parent of its parent is the base joined with \<open>.obsidian\<close>.  The result is a function
  of the two inputs alone.
\<close>

theorem target_layout:
  assumes "plain pluginId"
  shows "targetPluginDir base pluginId = normalize base @ [''.obsidian'', ''plugins'', pluginId]
       \<and> path_dirname (path_dirname (targetPluginDir base pluginId))
           = path_join base [''.obsidian'']"
  by (simp add: targetPluginDir_plain[OF assms] path_join_one_plain[OF plain_obsidian(1)]
      path_dirname_def butlast_append)

theorem target_layout_witness:
  "plain ''my-plugin''
   \<and> targetPluginDir [''v''] ''my-plugin'' = [''v'', ''.obsidian'', ''plugins'', ''my-plugin'']
   \<and> path_dirname (path_dirname (targetPluginDir [''v''] ''my-plugin'')) = [''v'', ''.obsidian'']"
proof -
  have p: "plain ''my-plugin''" by (simp add: plain_def)
  show ?thesis
    using p target_layout[OF p, of "[''v'']"]
    by (simp add: normalize_def norm_step_def path_join_def split_slash_def path_dirname_def)
qed

section \<open>Properties of paths and trees\<close>

subsection \<open>Clean paths\<close>

lemma clean_Nil [simp]: "clean []" by (simp add: clean_def)
lemma clean_Cons: "clean (s # p) = ((s \<noteq> [] \<and> s \<noteq> ''.'' \<and> s \<noteq> ''..'') \<and> clean p)"
  by (simp add: clean_def)
lemma clean_append: "clean (p @ q) = (clean p \<and> clean q)"
  by (simp add: clean_def)
lemma clean_butlast: "clean p \<Longrightarrow> clean (butlast p)"
  by (induction p) (auto simp: clean_Cons)

lemma norm_step_clean: "clean st \<Longrightarrow> clean (norm_step st s)"
  by (cases st) (auto simp: norm_step_def clean_Cons)

lemma foldl_norm_step_clean: "clean st \<Longrightarrow> clean (foldl norm_step st xs)"
  by (induction xs arbitrary: st) (auto simp: norm_step_clean)

lemma clean_rev: "clean (rev p) = clean p"
  by (simp add: clean_def)

lemma clean_normalize: "clean (normalize xs)"
  by (simp add: normalize_def clean_rev foldl_norm_step_clean)

lemma foldl_norm_step_id: "clean xs \<Longrightarrow> foldl norm_step st xs = rev xs @ st"
  by (induction xs arbitrary: st) (auto simp: clean_Cons norm_step_def)

lemma normalize_clean: "clean xs \<Longrightarrow> normalize xs = xs"
  by (simp add: normalize_def foldl_norm_step_id)

lemma clean_distDir: "clean (distDir e)"
  by (simp add: distDir_def path_join_def clean_normalize)

lemma clean_targetPluginDir: "clean (targetPluginDir v p)"
  by (simp add: targetPluginDir_def path_join_def clean_normalize)

lemma path_resolve_clean: "clean p \<Longrightarrow> path_resolve p = p"
  by (simp add: path_resolve_def normalize_clean)

lemma get_append: "get r (p @ q) = (case get r p of None \<Rightarrow> None | Some n \<Rightarrow> get n q)"
  by (induction p arbitrary: r) (auto split: node.splits option.splits)

lemma get_snoc:
  "get r (p @ [s]) = (case get r p of Some (Dir es) \<Rightarrow> map_of es s | _ \<Rightarrow> None)"
  by (auto simp: get_append split: option.splits node.splits)

lemma get_butlast_Dir:
  assumes "get r p = Some n" "p \<noteq> []"
  shows "\<exists>es. get r (butlast p) = Some (Dir es) \<and> map_of es (last p) = Some n"
proof -
  from assms(2) obtain q s where p: "p = q @ [s]" by (metis append_butlast_last_id)
  with assms(1) show ?thesis by (auto simp: get_snoc split: option.splits node.splits)
qed

lemma get_prefix_Dir:
  assumes "get r (p @ q) = Some n" "q \<noteq> []"
  shows "\<exists>es. get r p = Some (Dir es)"
  using assms by (cases q) (auto simp: get_append split: option.splits node.splits)

subsection \<open>Reading after writing\<close>

lemma get_put_same:
  "get r q = Some (Dir es) \<Longrightarrow> get (put r (q @ [s]) x) (q @ [s]) = Some x"
proof (induction q arbitrary: r es)
  case Nil
  then show ?case by (simp add: update_conv')
next
  case (Cons a q)
  then show ?case
    by (auto simp: update_conv' split: node.splits option.splits)
qed

lemma get_put_other:
  "\<not> prefix p q \<Longrightarrow> \<not> prefix q p \<Longrightarrow> get (put r p x) q = get r q"
proof (induction p arbitrary: r q)
  case Nil
  then show ?case by simp
next
  case (Cons a p)
  then obtain b q' where q: "q = b # q'" by (cases q) auto
  show ?case
  proof (cases r)
    case (Dir es)
    show ?thesis
    proof (cases "a = b")
      case True
      with Cons.prems q have np: "\<not> prefix p q'" "\<not> prefix q' p" by auto
      then have "p \<noteq> []" by auto
      with Dir q True Cons.IH[OF np] show ?thesis
        by (auto simp: update_conv' split: option.splits)
    next
      case False
      with Dir q show ?thesis
        by (auto simp: update_conv' split: option.splits)
    qed
  qed (simp_all add: q)
qed

lemma get_put_above:
  "strict_prefix q p \<Longrightarrow> get r q = Some (Dir es) \<Longrightarrow> \<exists>es'. get (put r p x) q = Some (Dir es')"
proof (induction p arbitrary: r q)
  case Nil
  then show ?case by simp
next
  case (Cons a p)
  show ?case
  proof (cases q)
    case Nil
    with Cons.prems show ?thesis by (auto split: option.splits)
  next
    case (Cons b q')
    with Cons.prems have ab: "a = b" and sp: "strict_prefix q' p" by auto
    from Cons.prems(2) Cons obtain es0 c where r: "r = Dir es0" "map_of es0 b = Some c"
      "get c q' = Some (Dir es)"
      by (auto split: node.splits option.splits)
    from sp have "p \<noteq> []" by auto
    with r ab Cons Cons.IH[OF sp r(3)] show ?thesis
      by (auto simp: update_conv')
  qed
qed


lemma get_del_same:
  "get r q = Some (Dir es) \<Longrightarrow> get (del r (q @ [s])) (q @ [s]) = None"
proof (induction q arbitrary: r es)
  case Nil
  then show ?case by (simp add: delete_conv')
next
  case (Cons a q)
  then show ?case
    by (auto simp: update_conv' split: node.splits option.splits)
qed

lemma get_del_below:
  "get r q = Some (Dir es) \<Longrightarrow> get (del r (q @ [s])) ((q @ [s]) @ t) = None"
  by (simp only: get_append[of _ "q @ [s]" t] get_del_same) simp

lemma get_del_other:
  "\<not> prefix p q \<Longrightarrow> \<not> prefix q p \<Longrightarrow> get (del r p) q = get r q"
proof (induction p arbitrary: r q)
  case Nil
  then show ?case by simp
next
  case (Cons a p)
  then obtain b q' where q: "q = b # q'" by (cases q) auto
  show ?case
  proof (cases r)
    case (Dir es)
    show ?thesis
    proof (cases "a = b")
      case True
      with Cons.prems q have np: "\<not> prefix p q'" "\<not> prefix q' p" by auto
      then have "p \<noteq> []" by auto
      with Dir q True Cons.IH[OF np] show ?thesis
        by (auto simp: update_conv' split: option.splits)
    next
      case False
      with Dir q show ?thesis
        by (auto simp: update_conv' delete_conv' split: option.splits)
    qed
  qed (simp_all add: q)
qed

lemma get_del_above:
  "strict_prefix q p \<Longrightarrow> get r q = Some (Dir es) \<Longrightarrow> \<exists>es'. get (del r p) q = Some (Dir es')"
proof (induction p arbitrary: r q)
  case Nil
  then show ?case by simp
next
  case (Cons a p)
  show ?case
  proof (cases q)
    case Nil
    with Cons.prems show ?thesis by (auto split: option.splits)
  next
    case (Cons b q')
    with Cons.prems have ab: "a = b" and sp: "strict_prefix q' p" by auto
    from Cons.prems(2) Cons obtain es0 c where r: "r = Dir es0" "map_of es0 b = Some c"
      "get c q' = Some (Dir es)"
      by (auto split: node.splits option.splits)
    from sp have "p \<noteq> []" by auto
    with r ab Cons Cons.IH[OF sp r(3)] show ?thesis
      by (auto simp: update_conv')
  qed
qed

subsection \<open>Operations on paths of real directories\<close>

lemma walk_append_real:
  "get r (cur @ p) = Some n \<Longrightarrow> \<not> isSymbolicLink n \<Longrightarrow> clean p \<Longrightarrow>
   walk k r c cur (p @ rest) = walk k r c (cur @ p) rest"
proof (induction p arbitrary: cur)
  case Nil
  then show ?case by simp
next
  case (Cons s ss)
  from Cons.prems(1) obtain es where d: "get r cur = Some (Dir es)"
    using get_prefix_Dir[of r cur "s # ss" n] by auto
  from Cons.prems(1) have g: "get r ((cur @ [s]) @ ss) = Some n" by simp
  then obtain child where ch: "map_of es s = Some child" "get child ss = Some n"
    using d by (auto simp: get_append split: option.splits)
  have nl: "\<not> isSymbolicLink child"
    using ch(2) Cons.prems(2) by (cases ss; cases child) (auto simp: isSymbolicLink_def)
  from Cons.prems(3) have cl: "s \<noteq> []" "s \<noteq> ''.''" "s \<noteq> ''..''" "clean ss"
    by (auto simp: clean_Cons)
  have "walk k r c cur ((s # ss) @ rest) = walk k r c (cur @ [s]) (ss @ rest)"
    using d ch(1) nl cl by (cases child) (auto simp: isSymbolicLink_def)
  also have "\<dots> = walk k r c ((cur @ [s]) @ ss) rest"
    by (rule Cons.IH[OF g Cons.prems(2) cl(4)])
  finally show ?case by simp
qed

lemma walk_real:
  "get r p = Some n \<Longrightarrow> \<not> isSymbolicLink n \<Longrightarrow> clean p \<Longrightarrow> walk k r c [] p = Inr p"
  using walk_append_real[of r "[]" p n k c "[]"] by simp

lemma not_link_Dir [simp]: "\<not> isSymbolicLink (Dir es)" "\<not> isSymbolicLink (File c)"
  by (simp_all add: isSymbolicLink_def)

lemma lparent_real:
  "get r (butlast p) = Some (Dir es) \<Longrightarrow> clean p \<Longrightarrow> lparent r p = Inr (butlast p)"
  by (simp add: lparent_def walk_real clean_butlast)

lemma lstatSync_real:
  assumes "p \<noteq> []" "get r (butlast p) = Some (Dir es)" "clean p"
  shows "lstatSync r p = (case get r p of None \<Rightarrow> Inl ENOENT | Some n \<Rightarrow> Inr n)"
  using assms by (simp add: lstatSync_def lparent_real)

lemma statSync_real:
  "get r p = Some n \<Longrightarrow> \<not> isSymbolicLink n \<Longrightarrow> clean p \<Longrightarrow> statSync r p = Inr n"
  by (simp add: statSync_def walk_real)

lemma existsSync_real:
  "get r p = Some n \<Longrightarrow> \<not> isSymbolicLink n \<Longrightarrow> clean p \<Longrightarrow> existsSync r p"
  by (simp add: existsSync_def statSync_real)

lemma readFileSync_real:
  "get r p = Some (File c) \<Longrightarrow> clean p \<Longrightarrow> readFileSync r p = Inr c"
  by (simp add: readFileSync_def statSync_real)


lemma mkdir_from_real:
  "get r (pre @ rest) = Some (Dir es) \<Longrightarrow> clean (pre @ rest) \<Longrightarrow> mkdir_from r pre rest = Inr r"
proof (induction rest arbitrary: pre)
  case Nil
  then show ?case by simp
next
  case (Cons s ss)
  have "\<exists>es'. get r (pre @ [s]) = Some (Dir es')"
  proof (cases ss)
    case Nil
    with Cons.prems show ?thesis by simp
  next
    case (Cons a list)
    with Cons.prems(1) show ?thesis
      using get_prefix_Dir[of r "pre @ [s]" ss "Dir es"] by simp
  qed
  then obtain es' where d: "get r (pre @ [s]) = Some (Dir es')" by blast
  from Cons.prems(2) have "clean (pre @ [s])" by (simp add: clean_append clean_Cons)
  with d have "statSync r (pre @ [s]) = Inr (Dir es')" by (simp add: statSync_real)
  with Cons.IH[of "pre @ [s]"] Cons.prems show ?case by simp
qed

lemma mkdirSync_real:
  "get r p = Some (Dir es) \<Longrightarrow> clean p \<Longrightarrow> mkdirSync r p = Inr r"
  using mkdir_from_real[of r "[]" p es] by (simp add: mkdirSync_def)

lemma rmSync_real:
  "p \<noteq> [] \<Longrightarrow> get r (butlast p) = Some (Dir es) \<Longrightarrow> clean p \<Longrightarrow> rmSync r p = Inr (del r p)"
  by (simp add: rmSync_def lparent_real)

lemma symlinkSync_real:
  "p \<noteq> [] \<Longrightarrow> get r (butlast p) = Some (Dir es) \<Longrightarrow> clean p \<Longrightarrow> get r p = None \<Longrightarrow>
   symlinkSync r t p = Inr (put r p (Link t))"
  by (simp add: symlinkSync_def lparent_real)


lemma walk_creat_real:
  assumes d: "get r d = Some (Dir es)" and cl: "clean (d @ [s])"
    and e: "map_of es s = None \<or> (\<exists>c. map_of es s = Some (File c))"
  shows "walk k r True [] (d @ [s]) = Inr (d @ [s])"
proof -
  from cl have cs: "clean d" "s \<noteq> []" "s \<noteq> ''.''" "s \<noteq> ''..''"
    by (auto simp: clean_append clean_Cons)
  have "walk k r True [] (d @ [s]) = walk k r True d [s]"
    using walk_append_real[of r "[]" d "Dir es" k True "[s]"] d cs by simp
  also have "\<dots> = Inr (d @ [s])"
    using d e cs by auto
  finally show ?thesis .
qed

lemma writeFileSync_real:
  assumes d: "get r d = Some (Dir es)" and cl: "clean (d @ [s])"
    and e: "map_of es s = None \<or> (\<exists>c. map_of es s = Some (File c))"
  shows "writeFileSync r (d @ [s]) c = Inr (put r (d @ [s]) (File c))"
proof -
  have "get r (d @ [s]) = map_of es s" using d by (simp add: get_snoc)
  with e walk_creat_real[OF d cl e] show ?thesis
    by (auto simp: writeFileSync_def)
qed

lemma copyFileSync_ok:
  assumes "readFileSync r src = Inr c" "writeFileSync r dst c = Inr r'"
  shows "copyFileSync r src dst = (Inr (), r')"
  using assms
  by (auto simp: copyFileSync_def readFileSync_def writeFileSync_def
      split: sum.splits node.splits option.splits)



subsection \<open>Lookup in an extended tree\<close>











subsection \<open>Link texts\<close>















lemma render_nonempty: "render p \<noteq> []"
  by (cases p) (auto simp: render_def)


subsection \<open>More on writing into trees\<close>














lemma height_Dir_pos: "0 < height (Dir es)"
  by simp




lemma plain_data_json: "plain ''data.json''"
  by (simp add: plain_def)

lemma path_join_clean: "clean base \<Longrightarrow> plain s \<Longrightarrow> path_join base [s] = base @ [s]"
  by (simp add: path_join_one_plain normalize_clean)

lemma plain_clean_snoc: "clean p \<Longrightarrow> plain s \<Longrightarrow> clean (p @ [s])"
  by (simp add: plain_def clean_def)

lemma strict_prefix_butlast: "p \<noteq> [] \<Longrightarrow> strict_prefix (butlast p) p"
proof -
  assume ne: "p \<noteq> []"
  then have p: "butlast p @ [last p] = p" by simp
  then have "prefix (butlast p) p" by (metis prefixI)
  moreover have "butlast p \<noteq> p"
  proof
    assume "butlast p = p"
    with p have "p @ [last p] = p" by simp
    then show False by simp
  qed
  ultimately show ?thesis by (simp add: strict_prefix_def)
qed


subsection \<open>Paths that exist only in part\<close>













section \<open>Properties of the run\<close>

subsection \<open>The arguments\<close>

lemma projectRoot_argv: "projectRoot (e\<lparr>argv := a\<rparr>) = projectRoot e"
  by (simp add: projectRoot_def)

lemma distDir_argv: "distDir (e\<lparr>argv := a\<rparr>) = distDir e"
  by (simp add: distDir_def projectRoot_argv)

lemma envPath_argv: "envPath (e\<lparr>argv := a\<rparr>) = envPath e"
  by (simp add: envPath_def projectRoot_argv)

lemma manifestPath_argv: "manifestPath (e\<lparr>argv := a\<rparr>) = manifestPath e"
  by (simp add: manifestPath_def projectRoot_argv)

lemma ensureDistReady_argv: "ensureDistReady (e\<lparr>argv := a\<rparr>) = ensureDistReady e"
  by (simp add: ensureDistReady_def distDir_argv cong: if_cong)

lemma readJsonSync_argv: "readJsonSync (e\<lparr>argv := a\<rparr>) = readJsonSync e"
  by (rule ext, rule ext) (simp add: readJsonSync_def cong: sum.case_cong)

lemma getPluginId_argv: "getPluginId (e\<lparr>argv := a\<rparr>) = getPluginId e"
  by (rule ext) (simp add: getPluginId_def distDir_argv manifestPath_argv readJsonSync_argv
      cong: if_cong)

lemma createLink_argv: "createLink (e\<lparr>argv := a\<rparr>) = createLink e"
  by (rule ext, rule ext) (simp add: createLink_def distDir_argv)

lemma removeOld_argv: "removeOld (e\<lparr>argv := a\<rparr>) = removeOld e"
  by (rule ext, rule ext) (simp add: removeOld_def createLink_argv)

lemma deployLink_argv: "deployLink (e\<lparr>argv := a\<rparr>) = deployLink e"
  by (rule ext, rule ext, rule ext)
    (simp add: deployLink_def distDir_argv removeOld_argv createLink_argv
      cong: if_cong sum.case_cong)

lemma deployCopy_argv: "deployCopy k (e\<lparr>argv := a\<rparr>) = deployCopy k e"
  by (rule ext, rule ext, rule ext) (simp add: deployCopy_def distDir_argv cong: if_cong)

lemma loadVaultPath_argv:
  "customVaultPath (e\<lparr>argv := a\<rparr>) = customVaultPath (e\<lparr>argv := b\<rparr>) \<Longrightarrow>
   loadVaultPath (e\<lparr>argv := a\<rparr>) = loadVaultPath (e\<lparr>argv := b\<rparr>)"
  by (rule ext)
    (simp add: loadVaultPath_def envPath_argv
      cong: if_cong sum.case_cong option.case_cong list.case_cong)

lemma main_argv:
  assumes "deployMode (e\<lparr>argv := a\<rparr>) = deployMode (e\<lparr>argv := b\<rparr>)"
    and "customVaultPath (e\<lparr>argv := a\<rparr>) = customVaultPath (e\<lparr>argv := b\<rparr>)"
  shows "main k (e\<lparr>argv := a\<rparr>) = main k (e\<lparr>argv := b\<rparr>)"
  unfolding main_def
  by (simp only: assms(1) loadVaultPath_argv[OF assms(2)] ensureDistReady_argv getPluginId_argv
        deployLink_argv deployCopy_argv)

text \<open>A run started with no argument at all is the run started with the single argument
  \<open>link\<close>, whatever the rest of the configuration, the file system and the log so far.\<close>

lemma deployMode_no_arguments: "deployMode (e\<lparr>argv := []\<rparr>) = ''link''"
  by (simp add: deployMode_def)

lemma main_no_arguments:
  "main k (e\<lparr>argv := []\<rparr>) = main k (e\<lparr>argv := [''link'']\<rparr>)"
  by (rule main_argv) (simp_all add: deployMode_def customVaultPath_def)

text \<open>
  C10 at a concrete input.  The usage line at the head of the script,
  \<open>node scripts/deploy.mjs [link|copy] [--vault-path=/path/to/vault]\<close>, has the mode and
  the vault path both optional, and the mode is computed as \<open>args[0] || "link"\<close>: with
  no argument at all it is \<open>link\<close>.  Started
  without a mode and with the vault path, the script reads the option as the mode: the
  run ends with status 1 and the message for an unknown mode, and nothing is deployed.
  With \<open>link\<close> written out before the same option, the run ends with status 0 and the
  target is a link to the artifact directory.
\<close>

theorem option_read_as_mode:
  "deployMode (sample_env []) = ''link''
   \<and> deployMode (sample_env [''--vault-path=/v'']) = ''--vault-path=/v''
   \<and> customVaultPath (sample_env [''--vault-path=/v'']) = Some ''/v''
   \<and> exit_status (main 3 (sample_env [''--vault-path=/v'']) (start fs_built)) = Some 1
   \<and> out (snd (main 3 (sample_env [''--vault-path=/v'']) (start fs_built)))
       = [DeployModeIs ''--vault-path=/v'', TargetVault [''v''], PluginIdIs ''id'',
          UnknownMode ''--vault-path=/v'', SupportedModes]
   \<and> fs (snd (main 3 (sample_env [''--vault-path=/v'']) (start fs_built))) = fs_built
   \<and> exit_status (main 3 (sample_env [''link'', ''--vault-path=/v'']) (start fs_built)) = Some 0
   \<and> lstatSync (fs (snd (main 3 (sample_env [''link'', ''--vault-path=/v'']) (start fs_built))))
         (targetPluginDir [''v''] ''id'')
       = Inr (Link ''/p/dist'')"
  by code_simp

subsection \<open>Copy mode without a build\<close>

text \<open>
  C1 at a concrete input: copy mode, \<open>dist\<close> missing when the run starts.
  \<open>ensureDistReady\<close> runs before \<open>deployCopy\<close> and creates \<open>dist\<close>, so the test for a
  missing \<open>dist\<close> in \<open>deployCopy\<close> finds it: the run copies the fresh directory to the
  target and ends with status 0.
\<close>

theorem copy_unbuilt_run:
  "\<not> existsSync fs_unbuilt (distDir (sample_env [''copy'', ''--vault-path=/v'']))
   \<and> exit_status (main 3 (sample_env [''copy'', ''--vault-path=/v'']) (start fs_unbuilt)) = Some 0
   \<and> statSync (fs (snd (main 3 (sample_env [''copy'', ''--vault-path=/v'']) (start fs_unbuilt))))
        [''v'', ''.obsidian'', ''plugins'', ''id'']
      = Inr (Dir [(''.hotreload'', File [])])"
  by code_simp

subsection \<open>The steps before the dispatch\<close>

lemma fs_say [simp]: "fs (say m w) = fs w"
  by (simp add: say_def)

lemma attempt_cases:
  "attempt f w = (res, w') \<Longrightarrow>
   (\<exists>er. f (fs w) = Inl er \<and> res = Inl (Throw (Sys er)) \<and> w' = w)
   \<or> (\<exists>r. f (fs w) = Inr r \<and> res = Inr () \<and> w' = w\<lparr>fs := r\<rparr>)"
  by (auto simp: attempt_def split: sum.splits)

lemma attempt_out:
  "attempt f (w\<lparr>out := l\<rparr>) = (fst (attempt f w), (snd (attempt f w))\<lparr>out := l\<rparr>)"
  by (simp add: attempt_def split: sum.splits)

lemma ensureDistReady_out:
  "ensureDistReady e (w\<lparr>out := l\<rparr>)
   = (fst (ensureDistReady e w), (snd (ensureDistReady e w))\<lparr>out := l\<rparr>)"
  by (simp add: ensureDistReady_def and_then_def attempt_def Let_def split: sum.splits prod.splits)

lemma ensureDistReady_no_exit:
  "fst (ensureDistReady e w) = Inr () \<or> (\<exists>er. fst (ensureDistReady e w) = Inl (Throw (Sys er)))"
  by (auto simp add: ensureDistReady_def and_then_def attempt_def Let_def split: sum.splits prod.splits)

lemma loadVaultPath_fs: "fs (snd (loadVaultPath e w)) = fs w"
  by (simp add: loadVaultPath_def exit_def split: option.splits list.splits)

lemma loadVaultPath_cases:
  "(\<exists>v. loadVaultPath e w = (Inr v, w))
   \<or> loadVaultPath e w = (Inl (Exit 0), say EnvFileMissing w)
      \<and> (customVaultPath e = None \<or> customVaultPath e = Some []) \<and> \<not> existsSync (fs w) (envPath e)
   \<or> loadVaultPath e w = (Inl (Exit 1), say VaultPathUnset w)"
  by (simp add: loadVaultPath_def exit_def split: option.splits list.splits)

lemma loadVaultPath_skip:
  "(fst (loadVaultPath e w) = Inl (Exit 0)) =
   ((customVaultPath e = None \<or> customVaultPath e = Some []) \<and> \<not> existsSync (fs w) (envPath e))"
  by (simp add: loadVaultPath_def exit_def split: option.splits list.splits)

lemma getPluginId_cases:
  "(\<exists>p. getPluginId e w = (Inr p, w)) \<or> (\<exists>m. getPluginId e w = (Inl (Exit 1), say m w))"
  by (auto simp add: getPluginId_def exit_def Let_def try_catch_def and_then_def readJsonSync_def throw_def
      split: option.splits sum.splits prod.splits abort.splits if_splits)


lemma main_unknown_step:
  assumes m: "deployMode e \<noteq> ''link''" "deployMode e \<noteq> ''copy''"
    and r: "ensureDistReady e (say (DeployModeIs (deployMode e)) w) = (res, w1)"
  shows "fs (snd (main k e w)) = fs w1 \<and>
     exit_status (main k e w) =
       Some (if res = Inr () \<and> (customVaultPath e = None \<or> customVaultPath e = Some [])
                \<and> \<not> existsSync (fs w1) (envPath e) then 0 else 1)"
proof (cases res)
  case (Inl a)
  with ensureDistReady_no_exit[of e "say (DeployModeIs (deployMode e)) w"] r
  obtain er where a: "a = Throw (Sys er)" by auto
  show ?thesis
    using r Inl a
    by (simp add: main_def try_catch_def and_then_def exit_def exit_status_def)
next
  case (Inr u)
  consider (ok) v where "loadVaultPath e w1 = (Inr v, w1)"
    | (skip) "loadVaultPath e w1 = (Inl (Exit 0), say EnvFileMissing w1)"
    | (unset) "loadVaultPath e w1 = (Inl (Exit 1), say VaultPathUnset w1)"
    using loadVaultPath_cases[of e w1] by blast
  then show ?thesis
  proof cases
    case ok
    then have ns: "\<not> ((customVaultPath e = None \<or> customVaultPath e = Some [])
        \<and> \<not> existsSync (fs w1) (envPath e))"
      using loadVaultPath_skip[of e w1] by simp
    consider (id) p where "getPluginId e w1 = (Inr p, w1)"
      | (noid) mm where "getPluginId e w1 = (Inl (Exit 1), say mm w1)"
      using getPluginId_cases[of e w1] by blast
    then show ?thesis
    proof cases
      case id
      then show ?thesis using r Inr ok m ns
        by (simp add: main_def try_catch_def and_then_def exit_def exit_status_def Let_def)
    next
      case noid
      then show ?thesis using r Inr ok m ns
        by (simp add: main_def try_catch_def and_then_def exit_def exit_status_def Let_def)
    qed
  next
    case skip
    then have "(customVaultPath e = None \<or> customVaultPath e = Some [])
        \<and> \<not> existsSync (fs w1) (envPath e)"
      using loadVaultPath_skip[of e w1] by simp
    then show ?thesis using r Inr skip
      by (simp add: main_def try_catch_def and_then_def exit_def exit_status_def Let_def)
  next
    case unset
    then have ns: "\<not> ((customVaultPath e = None \<or> customVaultPath e = Some [])
        \<and> \<not> existsSync (fs w1) (envPath e))"
      using loadVaultPath_skip[of e w1] by simp
    show ?thesis using r Inr unset ns
      by (simp add: main_def try_catch_def and_then_def exit_def exit_status_def Let_def)
  qed
qed

lemma loadVaultPath_out:
  "fst (loadVaultPath e (w\<lparr>out := l\<rparr>)) = fst (loadVaultPath e w)"
  by (simp add: loadVaultPath_def exit_def split: option.splits list.splits)

lemma getPluginId_out:
  "fst (getPluginId e (w\<lparr>out := l\<rparr>)) = fst (getPluginId e w)"
  by (simp add: getPluginId_def exit_def Let_def try_catch_def and_then_def readJsonSync_def throw_def
      split: option.splits sum.splits prod.splits abort.splits if_splits)


lemma loadVaultPath_ok: "fst (loadVaultPath e w) = Inr v \<Longrightarrow> loadVaultPath e w = (Inr v, w)"
  using loadVaultPath_cases[of e w] by auto

lemma getPluginId_ok: "fst (getPluginId e w) = Inr p \<Longrightarrow> getPluginId e w = (Inr p, w)"
  using getPluginId_cases[of e w] by auto

lemma deployLink_self:
  "path_resolve (targetPluginDir v p) = path_resolve (distDir e) \<Longrightarrow>
   deployLink e v p w = (Inl (Exit 0), say SkipLinkSelf w)"
  by (simp add: deployLink_def exit_def)

lemma deployCopy_self:
  "path_resolve (targetPluginDir v p) = path_resolve (distDir e) \<Longrightarrow>
   deployCopy k e v p w = (Inl (Exit 0), say SkipCopySelf w)"
  by (simp add: deployCopy_def exit_def)

text \<open>What \<open>main\<close> does once the three preparation steps have gone through.\<close>

lemma main_dispatch:
  assumes r: "fst (ensureDistReady e w) = Inr ()"
    and v: "fst (loadVaultPath e (snd (ensureDistReady e w))) = Inr v"
    and p: "fst (getPluginId e (snd (ensureDistReady e w))) = Inr p"
  shows "\<exists>w1. fs w1 = fs (snd (ensureDistReady e w)) \<and>
     main k e w =
       try_catch
         (\<lambda>w. if deployMode e = ''link'' then deployLink e v p w
              else if deployMode e = ''copy'' then deployCopy k e v p w
              else exit 1 (say SupportedModes (say (UnknownMode (deployMode e)) w)))
         (\<lambda>x w. exit 1 (say (DeployFailed x) w)) w1"
proof -
  define l where "l = out w @ [DeployModeIs (deployMode e)]"
  define w1 where "w1 = (snd (ensureDistReady e w))\<lparr>out := l\<rparr>"
  have a: "ensureDistReady e (say (DeployModeIs (deployMode e)) w) = (Inr (), w1)"
    unfolding say_def w1_def l_def using r by (simp add: ensureDistReady_out)
  have b: "loadVaultPath e w1 = (Inr v, w1)"
    using v by (intro loadVaultPath_ok) (simp add: w1_def loadVaultPath_out)
  have c: "getPluginId e w1 = (Inr p, w1)"
    using p by (intro getPluginId_ok) (simp add: w1_def getPluginId_out)
  have "main k e w =
       try_catch
         (\<lambda>w. if deployMode e = ''link'' then deployLink e v p w
              else if deployMode e = ''copy'' then deployCopy k e v p w
              else exit 1 (say SupportedModes (say (UnknownMode (deployMode e)) w)))
         (\<lambda>x w. exit 1 (say (DeployFailed x) w)) (say (PluginIdIs p) (say (TargetVault v) w1))"
    using a b c by (simp add: main_def try_catch_def and_then_def Let_def)
  moreover have "fs (say (PluginIdIs p) (say (TargetVault v) w1)) = fs (snd (ensureDistReady e w))"
    by (simp add: w1_def)
  ultimately show ?thesis by blast
qed

subsection \<open>An unknown mode\<close>

lemma ensureDistReady_ready:
  assumes "existsSync (fs w) (distDir e)"
    and "existsSync (fs w) (path_join (distDir e) [''.hotreload''])"
  shows "ensureDistReady e w = (Inr (), w)"
  using assms by (simp add: ensureDistReady_def and_then_def Let_def)

text \<open>
  C2, as stated (failure status and no change of the file system for every unknown mode),
  fails in both parts.  With the mode \<open>sync\<close> on a project without \<open>dist\<close> the run ends
  with status 1, but \<open>ensureDistReady\<close> has created \<open>dist\<close> and its marker file before
  the mode is looked at.  With the mode \<open>sync\<close>, no vault path on the command line and
  no \<open>.env\<close> file, the run is skipped with status 0 before the mode is looked at.
\<close>

theorem unknown_mode_counterexample:
  "deployMode (sample_env [''sync'', ''--vault-path=/v'']) = ''sync''
   \<and> exit_status (main 3 (sample_env [''sync'', ''--vault-path=/v'']) (start fs_unbuilt)) = Some 1
   \<and> fs (snd (main 3 (sample_env [''sync'', ''--vault-path=/v'']) (start fs_unbuilt))) \<noteq> fs_unbuilt
   \<and> deployMode (sample_env [''sync'']) = ''sync''
   \<and> exit_status (main 3 (sample_env [''sync'']) (start fs_built)) = Some 0"
  by code_simp

text \<open>
  C2, amended: for every mode other than \<open>link\<close> and \<open>copy\<close>, the file system after the
  run is exactly the one \<open>ensureDistReady\<close> leaves: the run changes nothing when \<open>dist\<close>
  and \<open>dist/.hotreload\<close> exist already, and otherwise nothing but what
  \<open>ensureDistReady\<close> does to create them.  The exit status is 1, except that it is 0
  when \<open>ensureDistReady\<close> has gone through, no vault path (or an empty one) was given
  on the command line and \<open>existsSync\<close> finds no \<open>.env\<close> file (the run is skipped before
  the mode is looked at).
\<close>

theorem unknown_mode_run:
  assumes "deployMode e \<noteq> ''link''" "deployMode e \<noteq> ''copy''"
  shows "fs (snd (main k e w)) = fs (snd (ensureDistReady e w))
     \<and> (existsSync (fs w) (distDir e)
          \<and> existsSync (fs w) (path_join (distDir e) [''.hotreload''])
        \<longrightarrow> fs (snd (main k e w)) = fs w)
     \<and> exit_status (main k e w) =
       Some (if fst (ensureDistReady e w) = Inr ()
                \<and> (customVaultPath e = None \<or> customVaultPath e = Some [])
                \<and> \<not> existsSync (fs (snd (ensureDistReady e w))) (envPath e) then 0 else 1)"
proof -
  have "ensureDistReady e (say (DeployModeIs (deployMode e)) w)
        = (fst (ensureDistReady e w),
           (snd (ensureDistReady e w))\<lparr>out := out w @ [DeployModeIs (deployMode e)]\<rparr>)"
    unfolding say_def by (rule ensureDistReady_out)
  from main_unknown_step[OF assms this]
  have a: "fs (snd (main k e w)) = fs (snd (ensureDistReady e w))"
    and b: "exit_status (main k e w) =
       Some (if fst (ensureDistReady e w) = Inr ()
                \<and> (customVaultPath e = None \<or> customVaultPath e = Some [])
                \<and> \<not> existsSync (fs (snd (ensureDistReady e w))) (envPath e) then 0 else 1)"
    by simp_all
  have c: "fs (snd (main k e w)) = fs w"
    if "existsSync (fs w) (distDir e)"
      "existsSync (fs w) (path_join (distDir e) [''.hotreload''])"
    using a ensureDistReady_ready[OF that] by simp
  from a b c show ?thesis by blast
qed

theorem unknown_mode_run_witness:
  "deployMode (sample_env [''sync'', ''--vault-path=/v'']) \<noteq> ''link''
   \<and> deployMode (sample_env [''sync'', ''--vault-path=/v'']) \<noteq> ''copy''
   \<and> existsSync (fs (start fs_built)) (distDir (sample_env [''sync'', ''--vault-path=/v'']))
   \<and> existsSync (fs (start fs_built))
        (path_join (distDir (sample_env [''sync'', ''--vault-path=/v''])) [''.hotreload''])
   \<and> fs (snd (main 3 (sample_env [''sync'', ''--vault-path=/v'']) (start fs_built)))
       = fs (snd (ensureDistReady (sample_env [''sync'', ''--vault-path=/v'']) (start fs_built)))
   \<and> fs (snd (main 3 (sample_env [''sync'', ''--vault-path=/v'']) (start fs_built)))
       = fs (start fs_built)
   \<and> exit_status (main 3 (sample_env [''sync'', ''--vault-path=/v'']) (start fs_built)) = Some 1"
proof -
  let ?e = "sample_env [''sync'', ''--vault-path=/v'']"
  have m: "deployMode ?e \<noteq> ''link''" "deployMode ?e \<noteq> ''copy''"
    by code_simp+
  have x: "existsSync (fs (start fs_built)) (distDir ?e)"
    "existsSync (fs (start fs_built)) (path_join (distDir ?e) [''.hotreload''])"
    by code_simp+
  have c: "customVaultPath ?e \<noteq> None" "customVaultPath ?e \<noteq> Some []"
    by code_simp+
  note t = unknown_mode_run[OF m, of 3 "start fs_built"]
  from t have a: "fs (snd (main 3 ?e (start fs_built)))
      = fs (snd (ensureDistReady ?e (start fs_built)))" by blast
  from t x have b: "fs (snd (main 3 ?e (start fs_built))) = fs (start fs_built)" by blast
  from t c have s: "exit_status (main 3 ?e (start fs_built)) = Some 1" by simp
  from m x a b s show ?thesis by blast
qed

subsection \<open>The inspection of the target\<close>

text \<open>The inspection is \<open>fs.existsSync\<close>, which follows links and answers \<open>false\<close> whatever
  the reason: whenever the lookup of the target fails, \<open>deployLink\<close> goes straight to the
  creation of the link.\<close>

lemma unresolved_target_taken_for_absent:
  assumes "statSync (fs w) (targetPluginDir v p) = Inl er"
    and "path_resolve (targetPluginDir v p) \<noteq> path_resolve (distDir e)"
  shows "\<not> existsSync (fs w) (targetPluginDir v p)
       \<and> deployLink e v p w = createLink e (targetPluginDir v p) p w"
  using assms by (simp add: deployLink_def existsSync_def)

text \<open>
  C3 at concrete inputs.  \<open>deployLink\<close> has the code to look at a link at the target
  (\<open>lstatSync\<close>, \<open>readlinkSync\<close>) and to remove one that points elsewhere, but enters it
  only when \<open>existsSync\<close> has answered \<open>true\<close>, that is, when the link resolves.  A link
  at the target that points to itself makes the lookup fail with \<open>ELOOP\<close>, an error
  other than "does not exist": the target is taken for absent, nothing is removed, the
  creation of the link fails because the name is taken, and the run ends with status 1,
  leaving the file system as it was, so that every later run ends the same way.  The
  same happens with a link to a directory that is gone.  A link to a directory that
  exists, the sibling case, is removed and replaced, and the run ends with status 0.
\<close>

theorem unresolved_link_blocks_link_mode:
  "lstatSync fs_loop (targetPluginDir [''v''] ''id'') = Inr (Link ''id'')
   \<and> statSync fs_loop (targetPluginDir [''v''] ''id'') = Inl ELOOP
   \<and> \<not> existsSync fs_loop (targetPluginDir [''v''] ''id'')
   \<and> main 3 (sample_env [''link'', ''--vault-path=/v'']) (start fs_loop)
       = (Inl (Exit 1),
          \<lparr>fs = fs_loop,
           out = [DeployModeIs ''link'', TargetVault [''v''], PluginIdIs ''id'',
                  LinkFailed (Sys EEXIST)]\<rparr>)
   \<and> lstatSync fs_stale (targetPluginDir [''v''] ''id'') = Inr (Link ''/p/gone'')
   \<and> main 3 (sample_env [''link'', ''--vault-path=/v'']) (start fs_stale)
       = (Inl (Exit 1),
          \<lparr>fs = fs_stale,
           out = [DeployModeIs ''link'', TargetVault [''v''], PluginIdIs ''id'',
                  LinkFailed (Sys EEXIST)]\<rparr>)
   \<and> lstatSync fs_elsewhere (targetPluginDir [''v''] ''id'') = Inr (Link ''/p/old'')
   \<and> exit_status (main 3 (sample_env [''link'', ''--vault-path=/v'']) (start fs_elsewhere)) = Some 0
   \<and> lstatSync (fs (snd (main 3 (sample_env [''link'', ''--vault-path=/v'']) (start fs_elsewhere))))
         (targetPluginDir [''v''] ''id'')
       = Inr (Link ''/p/dist'')"
  by code_simp

subsection \<open>The target is the artifact directory itself\<close>

text \<open>
  C6, as stated (no change of the file system at all when the target is the artifact
  directory): for a project inside the plugin directory whose target is its own \<open>dist\<close>,
  not built yet, the run ends with status 0, but \<open>ensureDistReady\<close> has created \<open>dist\<close>
  and the marker file before the guard is reached.
\<close>

theorem self_target_counterexample:
  "path_resolve (targetPluginDir [''v''] ''dist'') = path_resolve (distDir (env_inside [''link'', ''--vault-path=/v'']))
   \<and> exit_status (main 3 (env_inside [''link'', ''--vault-path=/v'']) (start fs_inside)) = Some 0
   \<and> fs (snd (main 3 (env_inside [''link'', ''--vault-path=/v'']) (start fs_inside))) \<noteq> fs_inside"
  by code_simp

text \<open>
  C6, amended: when the resolved target equals the resolved artifact directory,
  \<open>deployLink\<close> and \<open>deployCopy\<close> change nothing on the file system and end the run
  with status 0; the only changes of a whole run in link or copy mode are then the ones
  \<open>ensureDistReady\<close> made before (\<open>dist\<close> and the marker file, when missing).
\<close>

theorem self_target_guard:
  assumes self: "path_resolve (targetPluginDir v p) = path_resolve (distDir e)"
  shows "deployLink e v p w = (Inl (Exit 0), say SkipLinkSelf w)
       \<and> deployCopy k e v p w = (Inl (Exit 0), say SkipCopySelf w)
       \<and> ((deployMode e = ''link'' \<or> deployMode e = ''copy'')
            \<and> fst (ensureDistReady e w0) = Inr ()
            \<and> fst (loadVaultPath e (snd (ensureDistReady e w0))) = Inr v
            \<and> fst (getPluginId e (snd (ensureDistReady e w0))) = Inr p
          \<longrightarrow> exit_status (main k e w0) = Some 0
              \<and> fs (snd (main k e w0)) = fs (snd (ensureDistReady e w0)))"
proof (intro conjI impI)
  show "deployLink e v p w = (Inl (Exit 0), say SkipLinkSelf w)"
    by (rule deployLink_self[OF self])
  show "deployCopy k e v p w = (Inl (Exit 0), say SkipCopySelf w)"
    by (rule deployCopy_self[OF self])
next
  assume h: "(deployMode e = ''link'' \<or> deployMode e = ''copy'')
            \<and> fst (ensureDistReady e w0) = Inr ()
            \<and> fst (loadVaultPath e (snd (ensureDistReady e w0))) = Inr v
            \<and> fst (getPluginId e (snd (ensureDistReady e w0))) = Inr p"
  then obtain w1 where w1: "fs w1 = fs (snd (ensureDistReady e w0))"
    "main k e w0 =
       try_catch
         (\<lambda>w. if deployMode e = ''link'' then deployLink e v p w
              else if deployMode e = ''copy'' then deployCopy k e v p w
              else exit 1 (say SupportedModes (say (UnknownMode (deployMode e)) w)))
         (\<lambda>x w. exit 1 (say (DeployFailed x) w)) w1"
    using main_dispatch[of e w0 v p k] by blast
  from h have m: "deployMode e = ''link'' \<or> deployMode e = ''copy''" by simp
  from m w1 show "exit_status (main k e w0) = Some 0"
    by (auto simp: try_catch_def deployLink_self[OF self] deployCopy_self[OF self] exit_status_def)
  from m w1 show "fs (snd (main k e w0)) = fs (snd (ensureDistReady e w0))"
    by (auto simp: try_catch_def deployLink_self[OF self] deployCopy_self[OF self])
qed

theorem self_target_guard_witness:
  "path_resolve (targetPluginDir [''v''] ''dist'') = path_resolve (distDir (env_inside [''copy'', ''--vault-path=/v'']))
   \<and> (deployMode (env_inside [''copy'', ''--vault-path=/v'']) = ''copy''
      \<and> fst (ensureDistReady (env_inside [''copy'', ''--vault-path=/v'']) (start fs_inside)) = Inr ()
      \<and> fst (loadVaultPath (env_inside [''copy'', ''--vault-path=/v'']) (snd (ensureDistReady (env_inside [''copy'', ''--vault-path=/v'']) (start fs_inside)))) = Inr [''v'']
      \<and> fst (getPluginId (env_inside [''copy'', ''--vault-path=/v'']) (snd (ensureDistReady (env_inside [''copy'', ''--vault-path=/v'']) (start fs_inside)))) = Inr ''dist'')
   \<and> exit_status (main 3 (env_inside [''copy'', ''--vault-path=/v'']) (start fs_inside)) = Some 0
   \<and> fs (snd (main 3 (env_inside [''copy'', ''--vault-path=/v'']) (start fs_inside)))
       = fs (snd (ensureDistReady (env_inside [''copy'', ''--vault-path=/v'']) (start fs_inside)))"
proof -
  let ?e = "env_inside [''copy'', ''--vault-path=/v'']"
  have s: "path_resolve (targetPluginDir [''v''] ''dist'') = path_resolve (distDir ?e)"
    by code_simp
  have h: "deployMode ?e = ''copy''
      \<and> fst (ensureDistReady ?e (start fs_inside)) = Inr ()
      \<and> fst (loadVaultPath ?e (snd (ensureDistReady ?e (start fs_inside)))) = Inr [''v'']
      \<and> fst (getPluginId ?e (snd (ensureDistReady ?e (start fs_inside)))) = Inr ''dist''"
    by code_simp
  from self_target_guard[OF s, where ?w0.0 = "start fs_inside" and k = 3] s h show ?thesis by blast
qed

subsection \<open>Link mode: what a deployment leaves\<close>






text \<open>Writing a regular file where there was none or another regular file keeps every
  directory a directory.\<close>

lemma put_file_keeps_Dir:
  assumes d: "get r d = Some (Dir es)"
    and e: "map_of es s = None \<or> (\<exists>c. map_of es s = Some (File c))"
    and q: "get r q = Some (Dir qs)"
  shows "\<exists>qs'. get (put r (d @ [s]) x) q = Some (Dir qs')"
proof -
  have g: "get r (d @ [s]) = map_of es s" using d by (simp add: get_snoc)
  have np: "\<not> prefix (d @ [s]) q"
  proof
    assume "prefix (d @ [s]) q"
    then obtain t where t: "q = (d @ [s]) @ t" by (auto simp: prefix_def)
    show False
    proof (cases t)
      case Nil with t q g e show False by auto
    next
      case (Cons a l)
      with t q get_prefix_Dir[of r "d @ [s]" t "Dir qs"] g e show False by auto
    qed
  qed
  show ?thesis
  proof (cases "prefix q (d @ [s])")
    case True
    with np have "strict_prefix q (d @ [s])" by (auto simp: strict_prefix_def)
    from get_put_above[OF this q] show ?thesis .
  next
    case False
    with np q get_put_other[of "d @ [s]" q r x] show ?thesis by simp
  qed
qed











lemma createLink_real:
  assumes Tne: "T \<noteq> []" and cT: "clean T"
    and par: "get (fs w) (butlast T) = Some (Dir ps)" and fresh: "get (fs w) T = None"
  shows "createLink e T p w
         = (Inr (), say (LinkCreated p) (w\<lparr>fs := put (fs w) T (Link (render (distDir e)))\<rparr>))"
proof -
  have mk: "mkdirSync (fs w) (path_dirname T) = Inr (fs w)"
    unfolding path_dirname_def by (rule mkdirSync_real[OF par clean_butlast[OF cT]])
  have sl: "symlinkSync (fs w) (render (distDir e)) T
            = Inr (put (fs w) T (Link (render (distDir e))))"
    by (rule symlinkSync_real[OF Tne par cT fresh])
  show ?thesis
    using mk sl by (simp add: createLink_def and_then_def attempt_def try_catch_def)
qed

subsection \<open>Link mode over a directory\<close>

text \<open>
  Data preservation where the artifact directory lies outside the target: the target is a
  real directory that holds (possibly through a link) a file \<open>data.json\<close> with content
  \<open>X\<close>; the artifact directory is a real directory whose own \<open>data.json\<close>, if any, is a
  regular file.  Then link mode returns normally, \<open>dist/data.json\<close> holds \<open>X\<close>, and
  the target is a link to the artifact directory.
\<close>

lemma backup_preserved:
  assumes tdir: "get (fs w) (targetPluginDir v p) = Some (Dir ts)"
    and data: "readFileSync (fs w) (targetPluginDir v p @ [''data.json'']) = Inr X"
    and ddir: "get (fs w) (distDir e) = Some (Dir ds)"
    and stale: "map_of ds ''data.json'' = None \<or> (\<exists>c. map_of ds ''data.json'' = Some (File c))"
    and outside: "\<not> prefix (targetPluginDir v p) (distDir e)"
  shows "\<exists>w'. deployLink e v p w = (Inr (), w')
          \<and> readFileSync (fs w') (distDir e @ [''data.json'']) = Inr X
          \<and> lstatSync (fs w') (targetPluginDir v p) = Inr (Link (render (distDir e)))"
proof -
  let ?T = "targetPluginDir v p" and ?S = "distDir e" and ?r = "fs w"
  let ?B = "?S @ [''data.json'']"
  note cT = clean_targetPluginDir[of v p] and cS = clean_distDir[of e]
  have cB: "clean ?B" using cS by (simp add: plain_clean_snoc plain_data_json)
  from outside have Tne: "?T \<noteq> []" and TS: "?T \<noteq> ?S" by auto
  then have T: "?T = butlast ?T @ [last ?T]" by simp
  from get_butlast_Dir[OF tdir Tne] obtain ps where par: "get ?r (butlast ?T) = Some (Dir ps)"
    by blast
  have ns: "path_resolve ?T \<noteq> path_resolve ?S"
    using TS by (simp add: path_resolve_clean cT cS)
  have ex: "existsSync ?r ?T" by (rule existsSync_real[OF tdir _ cT]) simp
  have ls: "lstatSync ?r ?T = Inr (Dir ts)"
    using lstatSync_real[OF Tne par cT] tdir by simp
  have pj: "path_join ?T [''data.json''] = ?T @ [''data.json'']"
    "path_join ?S [''data.json''] = ?B"
    using cT cS by (simp_all add: path_join_clean plain_data_json)
  have exd: "existsSync ?r (?T @ [''data.json''])"
    using data by (auto simp: existsSync_def readFileSync_def split: sum.splits)
  define r1 where "r1 = put ?r ?B (File X)"
  have cp: "copyFileSync ?r (?T @ [''data.json'']) ?B = (Inr (), r1)"
    using copyFileSync_ok[OF data writeFileSync_real[OF ddir cB stale, of X]]
    by (simp add: r1_def)
  have gB: "get ?r ?B = map_of ds ''data.json''" using ddir by (simp add: get_snoc)
  \<comment> \<open>the backup path and the target are unrelated\<close>
  have nTB: "\<not> prefix ?T ?B"
  proof
    assume "prefix ?T ?B"
    then have "?T = ?B \<or> prefix ?T ?S" by (simp add: prefix_snoc)
    with outside have "?T = ?B" by simp
    with tdir gB stale show False by auto
  qed
  have nBT: "\<not> prefix ?B ?T"
  proof
    assume "prefix ?B ?T"
    then obtain t where t: "?T = ?B @ t" by (auto simp: prefix_def)
    show False
    proof (cases t)
      case Nil with t tdir gB stale show False by auto
    next
      case (Cons a l)
      with t tdir get_prefix_Dir[of ?r ?B t "Dir ts"] gB stale show False by auto
    qed
  qed
  have par1: "\<exists>ps'. get r1 (butlast ?T) = Some (Dir ps')"
    unfolding r1_def by (rule put_file_keeps_Dir[OF ddir stale par])
  then obtain ps1 where par1': "get r1 (butlast ?T) = Some (Dir ps1)" by blast
  have B1: "get r1 ?B = Some (File X)"
    unfolding r1_def by (rule get_put_same[OF ddir])
  define r2 where "r2 = del r1 ?T"
  have rm: "rmSync r1 ?T = Inr r2"
    unfolding r2_def by (rule rmSync_real[OF Tne par1' cT])
  have sp: "strict_prefix (butlast ?T) ?T" by (rule strict_prefix_butlast[OF Tne])
  from get_del_above[OF sp par1'] obtain ps2 where par2: "get r2 (butlast ?T) = Some (Dir ps2)"
    unfolding r2_def by blast
  have f2: "get r2 ?T = None"
    unfolding r2_def using get_del_same[OF par1', of "last ?T"] T by simp
  have B2: "get r2 ?B = Some (File X)"
    unfolding r2_def using get_del_other[OF nTB nBT] B1 by simp
  define r3 where "r3 = put r2 ?T (Link (render ?S))"
  have B3: "get r3 ?B = Some (File X)"
    unfolding r3_def using get_put_other[OF nTB nBT] B2 by simp
  have T3: "get r3 ?T = Some (Link (render ?S))"
    unfolding r3_def using get_put_same[OF par2, of "last ?T"] T by simp
  from get_put_above[OF sp par2] obtain ps3 where par3: "get r3 (butlast ?T) = Some (Dir ps3)"
    unfolding r3_def by blast
  have run: "deployLink e v p w
      = (Inr (), say (LinkCreated p) ((say BackedUp (w\<lparr>fs := r1\<rparr>))\<lparr>fs := r3\<rparr>))"
  proof -
    have cl: "createLink e ?T p ((say BackedUp (w\<lparr>fs := r1\<rparr>))\<lparr>fs := r2\<rparr>)
        = (Inr (), say (LinkCreated p) ((say BackedUp (w\<lparr>fs := r1\<rparr>))\<lparr>fs := r3\<rparr>))"
      using createLink_real[OF Tne cT, of "(say BackedUp (w\<lparr>fs := r1\<rparr>))\<lparr>fs := r2\<rparr>" ps2 e p]
        par2 f2 by (simp add: r3_def)
    have ro: "removeOld e ?T p (say BackedUp (w\<lparr>fs := r1\<rparr>))
        = (Inr (), say (LinkCreated p) ((say BackedUp (w\<lparr>fs := r1\<rparr>))\<lparr>fs := r3\<rparr>))"
      using rm cl by (simp add: removeOld_def and_then_def attempt_def)
    show ?thesis
      using ns ex ls exd cp ro
      by (simp add: deployLink_def Let_def isSymbolicLink_def isDirectory_def pj and_then_def
          attempt_leaving_def)
  qed
  have "readFileSync r3 ?B = Inr X" by (rule readFileSync_real[OF B3 cB])
  moreover have "lstatSync r3 ?T = Inr (Link (render ?S))"
    using lstatSync_real[OF Tne par3 cT] T3 by simp
  ultimately show ?thesis using run by simp
qed

text \<open>
  C4 at a concrete input: the project sits in the target directory itself (cloned to
  \<open>/v/.obsidian/plugins/id\<close>, plugin identifier \<open>id\<close>), which holds \<open>data.json\<close>
  with content \<open>settings\<close>.  The run in link mode copies \<open>data.json\<close> to \<open>dist\<close>,
  then removes the target with everything below it, \<open>dist\<close> and the copy included,
  links the target to the \<open>dist\<close> that is gone, and ends with status 0: the content is
  nowhere any more, and the link leads back to itself.  (The guard at the head of
  \<open>deployLink\<close> compares target and artifact directory for equality only.)
\<close>

theorem backup_lost_when_nested:
  "readFileSync fs_nested (path_join (targetPluginDir [''v''] ''id'') [''data.json''])
     = Inr ''settings''
   \<and> exit_status (main 3 (env_nested [''link'', ''--vault-path=/v'']) (start fs_nested)) = Some 0
   \<and> fs (snd (main 3 (env_nested [''link'', ''--vault-path=/v'']) (start fs_nested)))
       = Dir [(''v'', Dir [(''.obsidian'', Dir [(''plugins'',
               Dir [(''id'', Link ''/v/.obsidian/plugins/id/dist'')])])])]
   \<and> readFileSync (fs (snd (main 3 (env_nested [''link'', ''--vault-path=/v'']) (start fs_nested))))
         (path_join (distDir (env_nested [''link'', ''--vault-path=/v''])) [''data.json''])
       = Inl ELOOP"
  by code_simp

subsection \<open>Link mode, twice\<close>










section \<open>Properties of the recursive copy\<close>


























subsection \<open>Copy mode\<close>






end
